theory Spec2Isabelle
  imports Main
begin

section \<open>The branch tab of mergemate (ui/tabs/branch.go)\<close>

text \<open>
  A Go \<open>string\<close> is a sequence of bytes; \<open>len\<close>, indexing and slicing count bytes.
  It is modelled as \<^typ>\<open>string\<close>, a list of 8-bit characters, so \<^const>\<open>length\<close>
  is Go's \<open>len\<close>.
\<close>

subsection \<open>Title shortening\<close>

text \<open>
  \<open>strings.IndexByte(s, c)\<close>: the index of the first occurrence of \<open>c\<close> in \<open>s\<close>,
  or \<open>-1\<close> when \<open>c\<close> does not occur.
\<close>

fun IndexByte :: "string \<Rightarrow> char \<Rightarrow> int" where
  "IndexByte [] c = - 1"
| "IndexByte (x # xs) c =
     (if x = c then 0
      else (let r = IndexByte xs c in if r = - 1 then - 1 else r + 1))"

text \<open>
  \<open>shortenTitle\<close>, lines 119-130. The slice \<open>title[:idx]\<close> is taken with
  \<open>0 \<le> idx < len(title)\<close> and \<open>title[:250]\<close> with \<open>len(title) > 255\<close>, so neither
  can be out of range.
\<close>

definition shortenTitle :: "string \<Rightarrow> string" where
  "shortenTitle title =
     (let idx = IndexByte title (CHR 0x0A);
          title1 = (if idx \<noteq> - 1 then take (nat idx) title else title)
      in if length title1 > 255 then take 250 title1 @ ''...'' else title1)"

text \<open>
  The spec measures a title in characters, the code in bytes. These two definitions
  follow the spec's word, to compare it with the code: in the UTF-8 text of a Go string
  every character (code point) is one byte that is not of the form \<open>10xxxxxx\<close>,
  followed by its continuation bytes of that form. They are not used by the model of
  the code.
\<close>

definition spec_isContinuationByte :: "char \<Rightarrow> bool" where
  "spec_isContinuationByte c = (digit7 c \<and> \<not> digit6 c)"

definition spec_characters :: "string \<Rightarrow> nat" where
  "spec_characters s = length (filter (\<lambda>c. \<not> spec_isContinuationByte c) s)"

subsection \<open>Data of the GitLab client (pkg/gitlab)\<close>

text \<open>
  The fields of \<open>gitlab.Branch\<close>, \<open>gitlab.Commit\<close> and
  \<open>gitlab.MergeRequestDetails\<close> that this file reads. \<open>AuthoredDate\<close> is a
  \<open>time.Time\<close>, kept as seconds since the epoch.
\<close>

record gitlab_Commit =
  Message :: string
  AuthoredDate :: int

record gitlab_Branch =
  Name :: string
  Default :: bool
  Commit :: gitlab_Commit

record MergeRequestDetails =
  Iid :: int

text \<open>
  A Go \<open>error\<close> value, by what the code asks of it:
  \<open>errors.Is(err, gitlab.MergeRequestAlreadyExists)\<close>,
  \<open>errors.As(err, new(net.Error))\<close> and its text (the \<open>%v\<close> verb).
  A \<open>nil\<close> error is \<open>None\<close>.
\<close>

record goerror =
  isMergeRequestAlreadyExists :: bool
  asNetError :: bool
  errorText :: string

text \<open>
  The two calls of the client that \<open>createMergeRequest\<close> makes. A Go call returning
  \<open>(*MergeRequestDetails, error)\<close> returns two values, each of which may be \<open>nil\<close>.
\<close>

record GitlabClient =
  CreateMergeRequest ::
    "string \<Rightarrow> string \<Rightarrow> string \<Rightarrow> MergeRequestDetails option \<times> goerror option"
  CreateMergeRequestNote :: "int \<Rightarrow> string \<Rightarrow> goerror option"

subsection \<open>Messages, commands and panics\<close>

text \<open>
  The \<open>tea.Msg\<close> values that reach or leave this file. A key press is kept as the
  text \<open>msg.String()\<close> that \<open>key.Matches\<close> compares. A \<open>tea.Cmd\<close> is the closure
  returned by \<open>createMergeRequest\<close>, kept as its three captured arguments, or a command
  handed back by a widget, which is opaque here.
\<close>

datatype Msg =
    UserBranches "gitlab_Branch list"
  | TargetBranches "gitlab_Branch list"
  | UpdatedContextMessage
  | KeyMsg string
  | MergeRequestCreated MergeRequestDetails
  | MergeRequestFailed string
  | OtherMsg nat

datatype Cmd =
    CreateMergeRequestCmd string string string
  | WidgetCmd nat

datatype panic =
    InterfaceConversion
  | IndexOutOfRange
  | NilDereference

text \<open>
  Modelled from the spec: \<open>failed\<close> is defined elsewhere in package \<open>tabs\<close>; it builds
  the "merge request failed" event, which carries a short human-readable message.
\<close>

definition failed :: "string \<Rightarrow> Msg" where
  "failed text = MergeRequestFailed text"

text \<open>\<open>tea.Batch(cmds...)\<close> runs the commands that are not \<open>nil\<close>.\<close>

fun Batch :: "Cmd option list \<Rightarrow> Cmd list" where
  "Batch [] = []"
| "Batch (None # cmds) = Batch cmds"
| "Batch (Some c # cmds) = c # Batch cmds"

subsection \<open>Running the creation command\<close>

text \<open>
  The closure returned by \<open>createMergeRequest\<close>, lines 95-117, run on a client.
  \<open>MergeAutomaticallyNote\<close> stands for the constant \<open>MergeAutomatically\<close> of package
  \<open>tabs\<close> (the body of the note), which is declared in another file. The result is the
  message returned (\<open>None\<close> for \<open>nil\<close>) and the lines written by \<open>log.Printf\<close>.
  \<open>mergeRequest.Iid\<close> dereferences the returned pointer.
\<close>

definition createMergeRequest ::
  "GitlabClient \<Rightarrow> string \<Rightarrow> string \<Rightarrow> string \<Rightarrow> string \<Rightarrow> panic + (Msg option \<times> string list)"
where
  "createMergeRequest client MergeAutomaticallyNote sourceBranch targetBranch title =
     (let title1 = shortenTitle title;
          (mergeRequest, err) = CreateMergeRequest client sourceBranch targetBranch title1
      in case err of
           Some e \<Rightarrow>
             if isMergeRequestAlreadyExists e then
               Inr (Some (failed (''merge request from branch '' @ sourceBranch @ '' already exists'')), [])
             else if asNetError e then
               Inr (Some (failed ''merge request creation failed, please check your network connection''), [])
             else
               Inr (Some (failed ''unrecognized error when creating merge request, please check log file''),
                    [''Error when creating merge request '' @ errorText e])
         | None \<Rightarrow>
             (case mergeRequest of
                None \<Rightarrow> Inl NilDereference
              | Some mr \<Rightarrow>
                  (case CreateMergeRequestNote client (Iid mr) MergeAutomaticallyNote of
                     Some e \<Rightarrow>
                       Inr (None,
                            [''Error when marking merge request to be merged automatically '' @ errorText e])
                   | None \<Rightarrow> Inr (Some (MergeRequestCreated mr), []))))"

subsection \<open>The widgets this file drives\<close>

text \<open>
  The key bindings, the table and the list come from libraries outside the repository
  (\<open>bubbles/key\<close>, \<open>bubble-table\<close>, \<open>bubbles/list\<close>). Each is kept as a record of
  the data that the calls made in this file read or write; what a widget does with a
  message forwarded to its own \<open>Update\<close> is left to a parameter (see \<open>External\<close>).
\<close>

record Binding =
  bindingKeys :: "string list"
  enabled :: bool

definition SetEnabled :: "bool \<Rightarrow> Binding \<Rightarrow> Binding" where
  "SetEnabled v b = b\<lparr>enabled := v\<rparr>"

text \<open>\<open>key.Matches(msg, binding)\<close>: the binding is enabled and the key is one of its keys.\<close>

definition Matches :: "string \<Rightarrow> Binding \<Rightarrow> bool" where
  "Matches k b = (enabled b \<and> k \<in> set (bindingKeys b))"

text \<open>\<open>keys.BranchKeyMap\<close>, declared in package \<open>keys\<close>.\<close>

record BranchKeyMap =
  MergeAutomatically :: Binding
  CloseTargetBranchesList :: Binding
  SelectTargetBranch :: Binding
  MergeFavourite :: "Binding list"

text \<open>
  A table row holds \<open>table.RowData\<close>, a \<open>map[string]interface{}\<close>; the values stored
  by this file are a string or a \<open>gitlab.Branch\<close>.
\<close>

datatype cell = CellString string | CellBranch gitlab_Branch

record Row =
  Data :: "string \<rightharpoonup> cell"

definition columnKeyBranchName :: string where
  "columnKeyBranchName = ''branchName''"

definition columnKeyLastCommit :: string where
  "columnKeyLastCommit = ''lastCommit''"

definition columnKeyBranchMetadata :: string where
  "columnKeyBranchMetadata = ''branchDetails''"

definition NewRow :: "(string \<rightharpoonup> cell) \<Rightarrow> Row" where
  "NewRow d = \<lparr>Data = d\<rparr>"

record table_Model =
  rows :: "Row list"
  rowCursorIndex :: nat
  currentPage :: nat
  pageSize :: int
  targetWidth :: int

definition WithRows :: "Row list \<Rightarrow> table_Model \<Rightarrow> table_Model" where
  "WithRows rs t = t\<lparr>rows := rs\<rparr>"

definition PageFirst :: "table_Model \<Rightarrow> table_Model" where
  "PageFirst t = t\<lparr>currentPage := 0, rowCursorIndex := 0\<rparr>"

definition WithTargetWidth :: "int \<Rightarrow> table_Model \<Rightarrow> table_Model" where
  "WithTargetWidth w t = t\<lparr>targetWidth := w\<rparr>"

definition WithPageSize :: "int \<Rightarrow> table_Model \<Rightarrow> table_Model" where
  "WithPageSize n t = t\<lparr>pageSize := n\<rparr>"

text \<open>
  \<open>HighlightedRow()\<close>: the row under the cursor, and the empty \<open>Row{}\<close> (whose \<open>Data\<close>
  is a \<open>nil\<close> map) when the table has no rows.
\<close>

definition HighlightedRow :: "table_Model \<Rightarrow> panic + Row" where
  "HighlightedRow t =
     (if rows t = [] then Inr \<lparr>Data = Map.empty\<rparr>
      else if rowCursorIndex t < length (rows t) then Inr (rows t ! rowCursorIndex t)
      else Inl IndexOutOfRange)"

record branchItem =
  name :: string

datatype FilterState = Unfiltered | Filtering | FilterApplied

record list_Model =
  items :: "branchItem list"
  filteredItems :: "branchItem list"
  filterState :: FilterState
  filterValue :: string
  cursor :: nat
  width :: int
  height :: int

text \<open>
  \<open>SetItems\<close> replaces the items; when a filter is on it also clears the filtered
  items and returns a command that computes them again, which line 169 drops.
\<close>

definition SetItems :: "branchItem list \<Rightarrow> list_Model \<Rightarrow> list_Model" where
  "SetItems its l =
     (let l1 = l\<lparr>items := its\<rparr>
      in if filterState l1 \<noteq> Unfiltered then l1\<lparr>filteredItems := []\<rparr> else l1)"

definition VisibleItems :: "list_Model \<Rightarrow> branchItem list" where
  "VisibleItems l = (if filterState l = Unfiltered then items l else filteredItems l)"

text \<open>
  \<open>SelectedItem()\<close>: the visible item under the cursor, and \<open>nil\<close> when the list is
  empty or filtered to empty.
\<close>

definition SelectedItem :: "list_Model \<Rightarrow> branchItem option" where
  "SelectedItem l =
     (if cursor l < length (VisibleItems l) then Some (VisibleItems l ! cursor l) else None)"

definition ResetFilter :: "list_Model \<Rightarrow> list_Model" where
  "ResetFilter l = l\<lparr>filterState := Unfiltered, filterValue := [], filteredItems := []\<rparr>"

definition ResetSelected :: "list_Model \<Rightarrow> list_Model" where
  "ResetSelected l = l\<lparr>cursor := 0\<rparr>"

definition SetWidth :: "int \<Rightarrow> list_Model \<Rightarrow> list_Model" where
  "SetWidth v l = l\<lparr>width := v\<rparr>"

definition SetHeight :: "int \<Rightarrow> list_Model \<Rightarrow> list_Model" where
  "SetHeight v l = l\<lparr>height := v\<rparr>"

text \<open>
  A single-value type assertion \<open>x.(T)\<close> panics when \<open>x\<close> is \<open>nil\<close> or holds a value of
  another type. Line 184 and 192 assert \<open>gitlab.Branch\<close> on a cell read from a row's
  map (a missing key reads as \<open>nil\<close>); line 185 asserts \<open>branchItem\<close> on the selected
  item.
\<close>

fun assertBranch :: "cell option \<Rightarrow> panic + gitlab_Branch" where
  "assertBranch (Some (CellBranch b)) = Inr b"
| "assertBranch (Some (CellString v)) = Inl InterfaceConversion"
| "assertBranch None = Inl InterfaceConversion"

fun assertBranchItem :: "branchItem option \<Rightarrow> panic + branchItem" where
  "assertBranchItem (Some i) = Inr i"
| "assertBranchItem None = Inl InterfaceConversion"

subsection \<open>The branch tab\<close>

text \<open>
  The fields of \<open>context.AppContext\<close> read here; \<open>HorizontalFrameSize\<close> is the value of
  \<open>Styles.Tabs.Content.GetHorizontalFrameSize()\<close>. The client is passed to
  \<open>createMergeRequest\<close> directly.
\<close>

record AppContext =
  WindowWidth :: int
  HorizontalFrameSize :: int
  TableContentHeight :: int
  TablePageSize :: int
  FavouriteBranches :: "string list"
  UserBranchPrefix :: string

record BranchTable =
  branchesList :: list_Model
  flexTable :: table_Model
  keys :: BranchKeyMap
  context' :: AppContext
  showMergeTargets :: bool

text \<open>
  What the file takes from outside and cannot compute here: the widgets' own \<open>Update\<close>
  (the new widget and the command it hands back, \<open>None\<close> for \<open>nil\<close>), the local-time
  rendering \<open>AuthoredDate.In(time.Local).Format(lasCommitFormat)\<close>, and the
  floating-point expression \<open>int(float64(contentSize) * 0.7)\<close>.
\<close>

record External =
  tableUpdate :: "Msg \<Rightarrow> table_Model \<Rightarrow> table_Model \<times> Cmd option"
  listUpdate :: "Msg \<Rightarrow> list_Model \<Rightarrow> list_Model \<times> Cmd option"
  formatLastCommit :: "int \<Rightarrow> string"
  seventyPercent :: "int \<Rightarrow> int"

text \<open>\<open>contentSize\<close>, lines 240-243, and \<open>tableSize\<close>, lines 232-238.\<close>

definition contentSize :: "BranchTable \<Rightarrow> int" where
  "contentSize m = WindowWidth (context' m) - HorizontalFrameSize (context' m)"

definition tableSize :: "External \<Rightarrow> BranchTable \<Rightarrow> int" where
  "tableSize ext m =
     (let contentSize1 = contentSize m
      in if showMergeTargets m then seventyPercent ext contentSize1 else contentSize1)"

text \<open>\<open>recalculateComponents\<close>, lines 223-230.\<close>

definition recalculateComponents :: "External \<Rightarrow> BranchTable \<Rightarrow> BranchTable" where
  "recalculateComponents ext m =
     (let tableWidth = tableSize ext m;
          m1 = m\<lparr>flexTable := WithTargetWidth tableWidth (flexTable m)\<rparr>;
          v = contentSize m1 - tableWidth;
          m2 = m1\<lparr>branchesList := SetWidth v (branchesList m1)\<rparr>;
          m3 = m2\<lparr>branchesList := SetHeight (TableContentHeight (context' m2)) (branchesList m2)\<rparr>
      in m3\<lparr>flexTable := WithPageSize (TablePageSize (context' m3)) (flexTable m3)\<rparr>)"

text \<open>
  The loop of lines 218-220: \<open>for i := range fs { fs[i].SetEnabled(v) }\<close>, from
  index \<open>i\<close> on.
\<close>

function setEnabledFrom :: "nat \<Rightarrow> bool \<Rightarrow> Binding list \<Rightarrow> Binding list" where
  "setEnabledFrom i v fs =
     (if i < length fs then setEnabledFrom (Suc i) v (fs[i := SetEnabled v (fs ! i)])
      else fs)"
  by pat_completeness auto
termination
  by (relation "measure (\<lambda>(i, v, fs). length fs - i)") auto

declare setEnabledFrom.simps [simp del]

text \<open>\<open>changeBranchSelectionVisibility\<close>, lines 210-221.\<close>

definition changeBranchSelectionVisibility ::
  "External \<Rightarrow> bool \<Rightarrow> BranchTable \<Rightarrow> BranchTable"
where
  "changeBranchSelectionVisibility ext visible m =
     (let m1 = m\<lparr>keys := (keys m)\<lparr>CloseTargetBranchesList :=
                   SetEnabled visible (CloseTargetBranchesList (keys m))\<rparr>\<rparr>;
          m2 = m1\<lparr>keys := (keys m1)\<lparr>SelectTargetBranch :=
                   SetEnabled visible (SelectTargetBranch (keys m1))\<rparr>\<rparr>;
          m3 = m2\<lparr>keys := (keys m2)\<lparr>MergeAutomatically :=
                   SetEnabled (\<not> visible) (MergeAutomatically (keys m2))\<rparr>\<rparr>;
          m4 = m3\<lparr>showMergeTargets := visible\<rparr>;
          m5 = recalculateComponents ext m4;
          m6 = m5\<lparr>branchesList := ResetFilter (branchesList m5)\<rparr>;
          m7 = m6\<lparr>branchesList := ResetSelected (branchesList m6)\<rparr>
      in m7\<lparr>keys := (keys m7)\<lparr>MergeFavourite :=
                   setEnabledFrom 0 (\<not> visible) (MergeFavourite (keys m7))\<rparr>\<rparr>)"

subsection \<open>Update\<close>

text \<open>
  The loop of lines 146-154: \<open>rows\<close> grows by one row for \<open>branches[i]\<close>, from index
  \<open>i\<close> on.
\<close>

definition branchRow :: "External \<Rightarrow> gitlab_Branch \<Rightarrow> Row" where
  "branchRow ext branch =
     NewRow (Map.empty
       (columnKeyBranchName \<mapsto> CellString (Name branch),
        columnKeyLastCommit \<mapsto> CellString (formatLastCommit ext (AuthoredDate (Commit branch))),
        columnKeyBranchMetadata \<mapsto> CellBranch branch))"

function userBranchRows ::
  "External \<Rightarrow> gitlab_Branch list \<Rightarrow> nat \<Rightarrow> Row list \<Rightarrow> Row list"
where
  "userBranchRows ext branches i rows1 =
     (if i < length branches
      then userBranchRows ext branches (Suc i) (rows1 @ [branchRow ext (branches ! i)])
      else rows1)"
  by pat_completeness auto
termination
  by (relation "measure (\<lambda>(ext, branches, i, rows1). length branches - i)") auto

declare userBranchRows.simps [simp del]

text \<open>
  The loop of lines 160-168: the item of a default branch is put in front of the items
  built so far, the item of any other branch behind them.
\<close>

function targetItems ::
  "gitlab_Branch list \<Rightarrow> nat \<Rightarrow> branchItem list \<Rightarrow> branchItem list"
where
  "targetItems branches i targetBranches =
     (if i < length branches
      then (let branch = branches ! i;
                item = \<lparr>name = Name branch\<rparr>
            in if Default branch
               then targetItems branches (Suc i) ([item] @ targetBranches)
               else targetItems branches (Suc i) (targetBranches @ [item]))
      else targetBranches)"
  by pat_completeness auto
termination
  by (relation "measure (\<lambda>(branches, i, targetBranches). length branches - i)") auto

declare targetItems.simps [simp del]

text \<open>
  The loop of lines 190-195 over \<open>m.keys.MergeFavourite\<close>, from index \<open>i\<close> on, with
  the commands collected so far. \<open>m.context.FavouriteBranches[i]\<close> panics when \<open>i\<close> is
  out of range.
\<close>

function mergeFavourites ::
  "BranchTable \<Rightarrow> string \<Rightarrow> nat \<Rightarrow> Cmd option list \<Rightarrow> panic + Cmd option list"
where
  "mergeFavourites m k i cmds =
     (if i < length (MergeFavourite (keys m)) then
        (if Matches k (MergeFavourite (keys m) ! i) \<and> \<not> showMergeTargets m then
           (case HighlightedRow (flexTable m) of
              Inl p \<Rightarrow> Inl p
            | Inr row \<Rightarrow>
                (case assertBranch (Data row columnKeyBranchMetadata) of
                   Inl p \<Rightarrow> Inl p
                 | Inr sourceBranch \<Rightarrow>
                     if i < length (FavouriteBranches (context' m)) then
                       mergeFavourites m k (Suc i)
                         (cmds @ [Some (CreateMergeRequestCmd (Name sourceBranch)
                                    (FavouriteBranches (context' m) ! i)
                                    (Message (Commit sourceBranch)))])
                     else Inl IndexOutOfRange))
         else mergeFavourites m k (Suc i) cmds)
      else Inr cmds)"
  by pat_completeness auto
termination
  by (relation "measure (\<lambda>(m, k, i, cmds). length (MergeFavourite (keys m)) - i)") auto

declare mergeFavourites.simps [simp del]

text \<open>The \<open>tea.KeyMsg\<close> case of the switch, lines 172-196.\<close>

definition Update_KeyMsg ::
  "External \<Rightarrow> string \<Rightarrow> BranchTable \<Rightarrow> panic + (BranchTable \<times> Cmd option list)"
where
  "Update_KeyMsg ext k m =
     (if Matches k (MergeAutomatically (keys m)) then
        (if \<not> showMergeTargets m
         then Inr (changeBranchSelectionVisibility ext True m, [])
         else Inr (m, []))
      else if Matches k (CloseTargetBranchesList (keys m)) then
        (if showMergeTargets m \<and> filterState (branchesList m) \<noteq> Filtering
         then Inr (changeBranchSelectionVisibility ext False m, [])
         else Inr (m, []))
      else if Matches k (SelectTargetBranch (keys m)) then
        (if showMergeTargets m \<and> filterState (branchesList m) \<noteq> Filtering then
           (case HighlightedRow (flexTable m) of
              Inl p \<Rightarrow> Inl p
            | Inr row \<Rightarrow>
                (case assertBranch (Data row columnKeyBranchMetadata) of
                   Inl p \<Rightarrow> Inl p
                 | Inr sourceBranch \<Rightarrow>
                     (case assertBranchItem (SelectedItem (branchesList m)) of
                        Inl p \<Rightarrow> Inl p
                      | Inr targetBranch \<Rightarrow>
                          Inr (changeBranchSelectionVisibility ext False m,
                               [Some (CreateMergeRequestCmd (Name sourceBranch)
                                        (name targetBranch)
                                        (Message (Commit sourceBranch)))]))))
         else Inr (m, []))
      else
        (case mergeFavourites m k 0 [] of
           Inl p \<Rightarrow> Inl p
         | Inr cmds \<Rightarrow> Inr (m, cmds)))"

text \<open>The type switch on the message, lines 142-197.\<close>

fun Update_switch ::
  "External \<Rightarrow> Msg \<Rightarrow> BranchTable \<Rightarrow> panic + (BranchTable \<times> Cmd option list)"
where
  "Update_switch ext (UserBranches branches) m =
     (let rows1 = userBranchRows ext branches 0 [];
          m1 = m\<lparr>flexTable := WithRows rows1 (flexTable m)\<rparr>
      in Inr (m1\<lparr>flexTable := PageFirst (flexTable m1)\<rparr>, []))"
| "Update_switch ext (TargetBranches branches) m =
     (let targetBranches = targetItems branches 0 []
      in Inr (m\<lparr>branchesList := SetItems targetBranches (branchesList m)\<rparr>, []))"
| "Update_switch ext UpdatedContextMessage m = Inr (recalculateComponents ext m, [])"
| "Update_switch ext (KeyMsg k) m = Update_KeyMsg ext k m"
| "Update_switch ext (MergeRequestCreated d) m = Inr (m, [])"
| "Update_switch ext (MergeRequestFailed t) m = Inr (m, [])"
| "Update_switch ext (OtherMsg n) m = Inr (m, [])"

text \<open>
  \<open>Update\<close>, lines 136-208: the switch, then the message goes to the widget that is
  visible after it (lines 199-205), and the commands are batched.
\<close>

definition Update :: "External \<Rightarrow> Msg \<Rightarrow> BranchTable \<Rightarrow> panic + (BranchTable \<times> Cmd list)" where
  "Update ext msg m =
     (case Update_switch ext msg m of
        Inl p \<Rightarrow> Inl p
      | Inr (m1, cmds) \<Rightarrow>
          if \<not> showMergeTargets m1 then
            (let (t, cmd) = tableUpdate ext msg (flexTable m1)
             in Inr (m1\<lparr>flexTable := t\<rparr>, Batch (cmds @ [cmd])))
          else
            (let (l, cmd) = listUpdate ext msg (branchesList m1)
             in Inr (m1\<lparr>branchesList := l\<rparr>, Batch (cmds @ [cmd]))))"

subsection \<open>Construction, and values for the examples\<close>

text \<open>
  \<open>createList\<close>, lines 70-79, and \<open>NewBranchTable\<close>, lines 51-68. \<open>branchHelp\<close>
  stands for the value of \<open>keys.BranchHelp(context.FavouriteBranches)\<close>, which package
  \<open>keys\<close> builds.
\<close>

definition createList :: list_Model where
  "createList =
     \<lparr>items = [], filteredItems = [], filterState = Unfiltered, filterValue = [],
      cursor = 0, width = 0, height = 20\<rparr>"

definition NewBranchTable :: "BranchKeyMap \<Rightarrow> AppContext \<Rightarrow> BranchTable" where
  "NewBranchTable branchHelp ctx =
     \<lparr>branchesList = createList,
      flexTable = \<lparr>rows = [], rowCursorIndex = 0, currentPage = 0,
                   pageSize = TablePageSize ctx, targetWidth = 0\<rparr>,
      keys = branchHelp,
      context' = ctx,
      showMergeTargets = False\<rparr>"

text \<open>Widgets that ignore every message, with some rendering of dates and of 70%.\<close>

definition idleWidgets :: External where
  "idleWidgets =
     \<lparr>tableUpdate = (\<lambda>msg t. (t, None)),
      listUpdate = (\<lambda>msg l. (l, None)),
      formatLastCommit = (\<lambda>t. ''1970-01-01 00:00:00''),
      seventyPercent = (\<lambda>c. c * 7 div 10)\<rparr>"

definition exampleKeys :: BranchKeyMap where
  "exampleKeys =
     \<lparr>MergeAutomatically = \<lparr>bindingKeys = [''m''], enabled = True\<rparr>,
      CloseTargetBranchesList = \<lparr>bindingKeys = [''esc''], enabled = True\<rparr>,
      SelectTargetBranch = \<lparr>bindingKeys = [''enter''], enabled = True\<rparr>,
      MergeFavourite = [\<lparr>bindingKeys = [''1''], enabled = True\<rparr>,
                        \<lparr>bindingKeys = [''2''], enabled = True\<rparr>]\<rparr>"

definition exampleContext :: AppContext where
  "exampleContext =
     \<lparr>WindowWidth = 100, HorizontalFrameSize = 4, TableContentHeight = 20,
      TablePageSize = 10, FavouriteBranches = [''main'', ''develop''],
      UserBranchPrefix = ''feature/''\<rparr>"

definition featureX :: gitlab_Branch where
  "featureX = \<lparr>Name = ''feature/x'', Default = False,
               Commit = \<lparr>Message = ''fix bug'', AuthoredDate = 0\<rparr>\<rparr>"

definition featureY :: gitlab_Branch where
  "featureY = \<lparr>Name = ''feature/y'', Default = False,
               Commit = \<lparr>Message = ''add test'', AuthoredDate = 60\<rparr>\<rparr>"

definition mainBranch :: gitlab_Branch where
  "mainBranch = \<lparr>Name = ''main'', Default = True,
                 Commit = \<lparr>Message = ''release'', AuthoredDate = 120\<rparr>\<rparr>"

definition developBranch :: gitlab_Branch where
  "developBranch = \<lparr>Name = ''develop'', Default = False,
                    Commit = \<lparr>Message = ''merge'', AuthoredDate = 180\<rparr>\<rparr>"

definition trunkBranch :: gitlab_Branch where
  "trunkBranch = \<lparr>Name = ''trunk'', Default = True,
                  Commit = \<lparr>Message = ''import'', AuthoredDate = 240\<rparr>\<rparr>"

text \<open>
  The letter e with an acute accent, two bytes in UTF-8, and the title made of \<open>n\<close> of
  them.
\<close>

definition eAcute :: string where
  "eAcute = [CHR 0xC3, CHR 0xA9]"

definition accented :: "nat \<Rightarrow> string" where
  "accented n = concat (replicate n eAcute)"

text \<open>The tab as constructed: browsing, no rows, no target items.\<close>

definition startTab :: BranchTable where
  "startTab = NewBranchTable exampleKeys exampleContext"

definition twoTargets :: "branchItem list" where
  "twoTargets = [\<lparr>name = ''main''\<rparr>, \<lparr>name = ''develop''\<rparr>]"

text \<open>
  The states met in the examples: \<open>startTab\<close> after the target branches \<open>main\<close> and
  \<open>develop\<close> arrived, and then with the picker opened on the table without rows;
  \<open>startTab\<close> after the user branch \<open>feature/x\<close> arrived, then with the picker opened
  on the list without items; \<open>startTab\<close> with the picker opened, and closed again; and
  the tab with both the row and the two targets.
\<close>

definition tabWithTargets :: BranchTable where
  "tabWithTargets = startTab\<lparr>branchesList := SetItems twoTargets (branchesList startTab)\<rparr>"

definition pickingNoSource :: BranchTable where
  "pickingNoSource = changeBranchSelectionVisibility idleWidgets True tabWithTargets"

definition browsingOne :: BranchTable where
  "browsingOne =
     startTab\<lparr>flexTable :=
       PageFirst (WithRows [branchRow idleWidgets featureX] (flexTable startTab))\<rparr>"

definition pickingNoTarget :: BranchTable where
  "pickingNoTarget = changeBranchSelectionVisibility idleWidgets True browsingOne"

definition pickingEmpty :: BranchTable where
  "pickingEmpty = changeBranchSelectionVisibility idleWidgets True startTab"

definition browsingAgain :: BranchTable where
  "browsingAgain = changeBranchSelectionVisibility idleWidgets False pickingEmpty"

definition browsingReady :: BranchTable where
  "browsingReady = browsingOne\<lparr>branchesList := SetItems twoTargets (branchesList browsingOne)\<rparr>"

definition pickingReady :: BranchTable where
  "pickingReady = changeBranchSelectionVisibility idleWidgets True browsingReady"

text \<open>
  Clients for the three outcomes of creation and for a note that fails after a
  creation that succeeded.
\<close>

definition alreadyExistsError :: goerror where
  "alreadyExistsError =
     \<lparr>isMergeRequestAlreadyExists = True, asNetError = False,
      errorText = ''merge request already exists''\<rparr>"

definition networkError :: goerror where
  "networkError =
     \<lparr>isMergeRequestAlreadyExists = False, asNetError = True,
      errorText = ''dial tcp: i/o timeout''\<rparr>"

definition otherError :: goerror where
  "otherError =
     \<lparr>isMergeRequestAlreadyExists = False, asNetError = False,
      errorText = ''403 Forbidden''\<rparr>"

definition clientFailing :: "goerror \<Rightarrow> GitlabClient" where
  "clientFailing e =
     \<lparr>CreateMergeRequest = (\<lambda>s t ti. (None, Some e)),
      CreateMergeRequestNote = (\<lambda>i n. None)\<rparr>"

definition clientNoteFails :: GitlabClient where
  "clientNoteFails =
     \<lparr>CreateMergeRequest = (\<lambda>s t ti. (Some \<lparr>Iid = 7\<rparr>, None)),
      CreateMergeRequestNote = (\<lambda>i n. Some otherError)\<rparr>"

section \<open>Properties\<close>

subsection \<open>Title shortening\<close>

lemma IndexByte_absent: "c \<notin> set s \<Longrightarrow> IndexByte s c = - 1"
  by (induction s) auto

lemma IndexByte_nonneg: "c \<in> set s \<Longrightarrow> 0 \<le> IndexByte s c"
  by (induction s) (auto simp: Let_def)

lemma IndexByte_present:
  "c \<in> set s \<Longrightarrow> IndexByte s c = int (length (takeWhile (\<lambda>x. x \<noteq> c) s))"
proof (induction s)
  case Nil
  then show ?case by simp
next
  case (Cons x xs)
  show ?case
  proof (cases "x = c")
    case True
    then show ?thesis by simp
  next
    case False
    with Cons.prems have mem: "c \<in> set xs" by simp
    from IndexByte_nonneg [OF mem] have "IndexByte xs c \<noteq> - 1" by simp
    with False Cons.IH [OF mem] show ?thesis by (simp add: Let_def)
  qed
qed

lemma take_first_line:
  "take (length (takeWhile P s)) s = takeWhile P s"
  by (induction s) auto

lemma line_cut:
  "(let idx = IndexByte title c in if idx \<noteq> - 1 then take (nat idx) title else title)
     = takeWhile (\<lambda>x. x \<noteq> c) title"
proof (cases "c \<in> set title")
  case True
  from IndexByte_nonneg [OF True] have "IndexByte title c \<noteq> - 1" by simp
  then show ?thesis
    by (simp add: Let_def IndexByte_present [OF True] take_first_line)
next
  case False
  have tw: "takeWhile (\<lambda>x. x \<noteq> c) title = title"
    using False by (induction title) auto
  have "IndexByte title c = - 1"
    using False by (rule IndexByte_absent)
  then show ?thesis unfolding tw by simp
qed

lemma shortenTitle_eq:
  "shortenTitle title =
     (let line = takeWhile (\<lambda>x. x \<noteq> CHR 0x0A) title
      in if 255 < length line then take 250 line @ ''...'' else line)"
  using line_cut [of title "CHR 0x0A"] by (simp add: shortenTitle_def Let_def)

lemma takeWhile_upto_first:
  "c \<notin> set pre \<Longrightarrow> takeWhile (\<lambda>x. x \<noteq> c) (pre @ c # rest) = pre"
  by (induction pre) auto

lemma takeWhile_absent:
  "c \<notin> set s \<Longrightarrow> takeWhile (\<lambda>x. x \<noteq> c) s = s"
  by (induction s) auto

text \<open>
  C3, amended: lengths are counted in bytes. \<open>shortenTitle\<close> keeps what stands before the first line break when there is
  one, and the whole title otherwise; when that is longer than 255 bytes it returns its
  first 250 bytes followed by \<open>...\<close>. A title of 300 bytes without a line break
  gives 253 bytes, and \<open>fix bug\<close>, a line break, \<open>extra detail\<close> gives
  \<open>fix bug\<close>.
\<close>

theorem shortenTitle_policy:
  "(title = pre @ CHR 0x0A # rest \<and> CHR 0x0A \<notin> set pre \<longrightarrow>
      shortenTitle title = (if 255 < length pre then take 250 pre @ ''...'' else pre))
   \<and> (CHR 0x0A \<notin> set title \<longrightarrow>
      shortenTitle title = (if 255 < length title then take 250 title @ ''...'' else title))
   \<and> (CHR 0x0A \<notin> set title \<and> length title = 300 \<longrightarrow>
      shortenTitle title = take 250 title @ ''...'' \<and> length (shortenTitle title) = 253)
   \<and> shortenTitle (''fix bug'' @ [CHR 0x0A] @ ''extra detail'') = ''fix bug''"
proof (intro conjI impI)
  assume h: "title = pre @ CHR 0x0A # rest \<and> CHR 0x0A \<notin> set pre"
  then have a: "title = pre @ CHR 0x0A # rest" and b: "CHR 0x0A \<notin> set pre"
    by simp_all
  have "takeWhile (\<lambda>x. x \<noteq> CHR 0x0A) title = pre"
    unfolding a by (rule takeWhile_upto_first [OF b])
  then show "shortenTitle title = (if 255 < length pre then take 250 pre @ ''...'' else pre)"
    by (simp add: shortenTitle_eq)
next
  assume h: "CHR 0x0A \<notin> set title"
  then have tw: "takeWhile (\<lambda>x. x \<noteq> CHR 0x0A) title = title"
    by (rule takeWhile_absent)
  show "shortenTitle title = (if 255 < length title then take 250 title @ ''...'' else title)"
    unfolding shortenTitle_eq tw by simp
next
  assume h: "CHR 0x0A \<notin> set title \<and> length title = 300"
  then have "CHR 0x0A \<notin> set title" by simp
  then have tw: "takeWhile (\<lambda>x. x \<noteq> CHR 0x0A) title = title"
    by (rule takeWhile_absent)
  from h show "shortenTitle title = take 250 title @ ''...''"
    unfolding shortenTitle_eq tw by simp
  then show "length (shortenTitle title) = 253"
    using h by simp
next
  show "shortenTitle (''fix bug'' @ [CHR 0x0A] @ ''extra detail'') = ''fix bug''"
    by (simp add: shortenTitle_def)
qed

theorem shortenTitle_policy_witness:
  "shortenTitle (''ab'' @ CHR 0x0A # ''cd'') = ''ab''
   \<and> shortenTitle (replicate 300 (CHR ''a'')) = replicate 250 (CHR ''a'') @ ''...''
   \<and> length (shortenTitle (replicate 300 (CHR ''a''))) = 253"
  using shortenTitle_policy [of "''ab'' @ CHR 0x0A # ''cd''" "''ab''" "''cd''"]
        shortenTitle_policy [of "replicate 300 (CHR ''a'')" "[]" "[]"]
  by simp

lemma accented_length: "length (accented n) = 2 * n"
  by (induction n) (simp_all add: accented_def eAcute_def)

lemma accented_no_line_break: "CHR 0x0A \<notin> set (accented n)"
  by (induction n) (simp_all add: accented_def eAcute_def)

lemma accented_characters: "spec_characters (accented n) = n"
  by (induction n)
     (simp_all add: accented_def eAcute_def spec_characters_def spec_isContinuationByte_def)

lemma accented_add: "accented (a + b) = accented a @ accented b"
  by (simp add: accented_def replicate_add)

lemma accented_take: "take (2 * a) (accented (a + b)) = accented a"
  by (simp add: accented_add accented_length)

lemma shortenTitle_accented:
  assumes "127 < n"
  shows "shortenTitle (accented n) = accented 125 @ ''...''"
proof -
  have tw: "takeWhile (\<lambda>x. x \<noteq> CHR 0x0A) (accented n) = accented n"
    by (rule takeWhile_absent [OF accented_no_line_break])
  from assms have n: "n = 125 + (n - 125)"
    by simp
  have "take (2 * 125) (accented (125 + (n - 125))) = accented 125"
    by (rule accented_take)
  then have "take 250 (accented n) = accented 125"
    using n by simp
  then show ?thesis
    using assms by (simp add: shortenTitle_eq tw accented_length)
qed

text \<open>
  C3, as stated, fails when lengths are counted in characters. The title of 200 accented
  letters has 200 characters and no line break, so it is not longer than 255
  characters, and is cut all the same. The title of 300 accented letters is cut to its
  first 125 characters and \<open>...\<close>, which are 128 characters, not to its first 250
  characters and \<open>...\<close>.
\<close>

theorem shortenTitle_characters_counterexample:
  "spec_characters (accented 200) = 200
   \<and> CHR 0x0A \<notin> set (accented 200)
   \<and> shortenTitle (accented 200) = accented 125 @ ''...''
   \<and> shortenTitle (accented 200) \<noteq> accented 200
   \<and> spec_characters (accented 300) = 300
   \<and> CHR 0x0A \<notin> set (accented 300)
   \<and> shortenTitle (accented 300) = accented 125 @ ''...''
   \<and> shortenTitle (accented 300) \<noteq> accented 250 @ ''...''
   \<and> spec_characters (shortenTitle (accented 300)) = 128"
proof -
  have a: "shortenTitle (accented 200) = accented 125 @ ''...''"
    by (rule shortenTitle_accented) simp
  have b: "shortenTitle (accented 300) = accented 125 @ ''...''"
    by (rule shortenTitle_accented) simp
  have l2: "length (shortenTitle (accented 200)) \<noteq> length (accented 200)"
    unfolding a by (simp add: accented_length)
  have l3: "length (shortenTitle (accented 300)) \<noteq> length (accented 250 @ ''...'')"
    unfolding b by (simp add: accented_length)
  have c: "spec_characters (accented 125 @ ''...'') = 128"
    using accented_characters [of 125]
    by (simp add: spec_characters_def spec_isContinuationByte_def)
  from l2 have n2: "shortenTitle (accented 200) \<noteq> accented 200" by auto
  from l3 have n3: "shortenTitle (accented 300) \<noteq> accented 250 @ ''...''" by auto
  show ?thesis
    using a b n2 n3 c by (simp add: accented_characters accented_no_line_break)
qed

subsection \<open>The loops\<close>

lemma setEnabledFrom_eq:
  "setEnabledFrom i v fs = take i fs @ map (SetEnabled v) (drop i fs)"
proof (induction i v fs rule: setEnabledFrom.induct)
  case (1 i v fs)
  show ?case
  proof (cases "i < length fs")
    case True
    let ?fs = "fs[i := SetEnabled v (fs ! i)]"
    have "setEnabledFrom i v fs = setEnabledFrom (Suc i) v ?fs"
      using True by (subst setEnabledFrom.simps) simp
    also have "\<dots> = take (Suc i) ?fs @ map (SetEnabled v) (drop (Suc i) ?fs)"
      using "1.IH" [OF True] .
    also have "take (Suc i) ?fs = take i fs @ [SetEnabled v (fs ! i)]"
      using True by (simp add: take_Suc_conv_app_nth)
    also have "drop (Suc i) ?fs = drop (Suc i) fs"
      by simp
    finally show ?thesis
      using True by (simp add: Cons_nth_drop_Suc [symmetric])
  next
    case False
    then show ?thesis
      by (subst setEnabledFrom.simps) simp
  qed
qed

lemma userBranchRows_eq:
  "userBranchRows ext branches i rows1 = rows1 @ map (branchRow ext) (drop i branches)"
proof (induction ext branches i rows1 rule: userBranchRows.induct)
  case (1 ext branches i rows1)
  show ?case
  proof (cases "i < length branches")
    case True
    have "userBranchRows ext branches i rows1 =
          userBranchRows ext branches (Suc i) (rows1 @ [branchRow ext (branches ! i)])"
      using True by (subst userBranchRows.simps) simp
    also have "\<dots> = (rows1 @ [branchRow ext (branches ! i)]) @ map (branchRow ext) (drop (Suc i) branches)"
      using "1.IH" [OF True] .
    finally show ?thesis
      using True by (simp add: Cons_nth_drop_Suc [symmetric])
  next
    case False
    then show ?thesis
      by (subst userBranchRows.simps) simp
  qed
qed

lemma targetItems_eq:
  "targetItems branches i acc =
     rev (map (\<lambda>b. \<lparr>name = Name b\<rparr>) (filter Default (drop i branches))) @ acc @
     map (\<lambda>b. \<lparr>name = Name b\<rparr>) (filter (\<lambda>b. \<not> Default b) (drop i branches))"
proof (induction branches i acc rule: targetItems.induct)
  case (1 branches i acc)
  show ?case
  proof (cases "i < length branches")
    case True
    then have d: "drop i branches = branches ! i # drop (Suc i) branches"
      by (simp add: Cons_nth_drop_Suc)
    show ?thesis
    proof (cases "Default (branches ! i)")
      case D: True
      have "targetItems branches i acc =
            targetItems branches (Suc i) ([\<lparr>name = Name (branches ! i)\<rparr>] @ acc)"
        using True D by (subst targetItems.simps) (simp add: Let_def)
      also note "1.IH" (1) [OF True refl refl D]
      finally show ?thesis using D by (simp add: d)
    next
      case D: False
      have "targetItems branches i acc =
            targetItems branches (Suc i) (acc @ [\<lparr>name = Name (branches ! i)\<rparr>])"
        using True D by (subst targetItems.simps) (simp add: Let_def)
      also note "1.IH" (2) [OF True refl refl D]
      finally show ?thesis using D by (simp add: d)
    qed
  next
    case False
    then show ?thesis
      by (subst targetItems.simps) simp
  qed
qed

subsection \<open>Target branches\<close>

lemma Update_TargetBranches:
  "Update ext (TargetBranches branches) m =
     (let m1 = m\<lparr>branchesList := SetItems (targetItems branches 0 []) (branchesList m)\<rparr>
      in if \<not> showMergeTargets m
         then Inr (m1\<lparr>flexTable := fst (tableUpdate ext (TargetBranches branches) (flexTable m1))\<rparr>,
                   Batch [snd (tableUpdate ext (TargetBranches branches) (flexTable m1))])
         else Inr (m1\<lparr>branchesList := fst (listUpdate ext (TargetBranches branches) (branchesList m1))\<rparr>,
                   Batch [snd (listUpdate ext (TargetBranches branches) (branchesList m1))]))"
  by (simp add: Update_def Let_def split: prod.splits)

lemma Update_TargetBranches_items:
  assumes "\<And>l. items (fst (listUpdate ext (TargetBranches branches) l)) = items l"
  shows "\<exists>m1 cmds. Update ext (TargetBranches branches) m = Inr (m1, cmds) \<and>
           items (branchesList m1) = targetItems branches 0 []"
  using assms by (simp add: Update_TargetBranches Let_def SetItems_def)

lemma targetItems_all:
  "targetItems branches 0 [] =
     rev (map (\<lambda>b. \<lparr>name = Name b\<rparr>) (filter Default branches)) @
     map (\<lambda>b. \<lparr>name = Name b\<rparr>) (filter (\<lambda>b. \<not> Default b) branches)"
  by (simp add: targetItems_eq)

text \<open>
  C10. When more than one branch of the sequence is marked default, the items after a
  \<open>TargetBranches\<close> message are the default branches in reverse of their input order,
  followed by the other branches in their input order. The picker's own \<open>Update\<close>,
  which receives the message when the picker is visible, is taken to leave its items
  as they are.
\<close>

theorem targetBranches_several_defaults:
  assumes "1 < length (filter Default branches)"
    and "\<And>l. items (fst (listUpdate ext (TargetBranches branches) l)) = items l"
  shows "\<exists>m1 cmds. Update ext (TargetBranches branches) m = Inr (m1, cmds) \<and>
           items (branchesList m1) =
             rev (map (\<lambda>b. \<lparr>name = Name b\<rparr>) (filter Default branches)) @
             map (\<lambda>b. \<lparr>name = Name b\<rparr>) (filter (\<lambda>b. \<not> Default b) branches)"
  using Update_TargetBranches_items [OF assms(2)] by (simp add: targetItems_all)

theorem targetBranches_several_defaults_witness:
  "1 < length (filter Default [featureX, mainBranch, developBranch, trunkBranch]) \<and>
   (\<exists>m1 cmds. Update idleWidgets (TargetBranches [featureX, mainBranch, developBranch, trunkBranch])
                 startTab = Inr (m1, cmds) \<and>
      items (branchesList m1) =
        [\<lparr>name = ''trunk''\<rparr>, \<lparr>name = ''main''\<rparr>, \<lparr>name = ''feature/x''\<rparr>, \<lparr>name = ''develop''\<rparr>])"
proof -
  have d: "1 < length (filter Default [featureX, mainBranch, developBranch, trunkBranch])"
    by (simp add: featureX_def mainBranch_def developBranch_def trunkBranch_def)
  have w: "\<And>l. items (fst (listUpdate idleWidgets
              (TargetBranches [featureX, mainBranch, developBranch, trunkBranch]) l)) = items l"
    by (simp add: idleWidgets_def)
  show ?thesis
    using d targetBranches_several_defaults
      [of "[featureX, mainBranch, developBranch, trunkBranch]" idleWidgets startTab, OF d w]
    by (simp add: featureX_def mainBranch_def developBranch_def trunkBranch_def)
qed

lemma filter_none: "(\<forall>b\<in>set xs. \<not> P b) \<Longrightarrow> filter P xs = []"
  by (induction xs) auto

lemma filter_all: "(\<forall>b\<in>set xs. \<not> P b) \<Longrightarrow> filter (\<lambda>b. \<not> P b) xs = xs"
  by (induction xs) auto

text \<open>
  C4. With exactly one default branch \<open>d\<close>, at any position of the sequence, the item
  of \<open>d\<close> is at index 0 after a \<open>TargetBranches\<close> message and the other items
  follow in their input order; with no default branch the items are in input order.
  The picker's own \<open>Update\<close> is taken to leave its items as they are.
\<close>

theorem targetBranches_default_first:
  assumes "\<And>l. items (fst (listUpdate ext (TargetBranches branches) l)) = items l"
  shows
  "(branches = pre @ d # post \<and> Default d \<and> (\<forall>b\<in>set (pre @ post). \<not> Default b) \<longrightarrow>
      (\<exists>m1 cmds. Update ext (TargetBranches branches) m = Inr (m1, cmds) \<and>
         items (branchesList m1) ! 0 = \<lparr>name = Name d\<rparr> \<and>
         items (branchesList m1) = \<lparr>name = Name d\<rparr> # map (\<lambda>b. \<lparr>name = Name b\<rparr>) (pre @ post)))
   \<and> ((\<forall>b\<in>set branches. \<not> Default b) \<longrightarrow>
      (\<exists>m1 cmds. Update ext (TargetBranches branches) m = Inr (m1, cmds) \<and>
         items (branchesList m1) = map (\<lambda>b. \<lparr>name = Name b\<rparr>) branches))"
proof (intro conjI impI)
  assume h: "branches = pre @ d # post \<and> Default d \<and> (\<forall>b\<in>set (pre @ post). \<not> Default b)"
  then have b: "branches = pre @ d # post" and dd: "Default d"
    and np: "\<forall>b\<in>set pre. \<not> Default b" and nq: "\<forall>b\<in>set post. \<not> Default b"
    by auto
  have "targetItems branches 0 [] =
          \<lparr>name = Name d\<rparr> # map (\<lambda>b. \<lparr>name = Name b\<rparr>) (pre @ post)"
    unfolding targetItems_all b
    using dd by (simp add: filter_none [OF np] filter_none [OF nq] filter_all [OF np] filter_all [OF nq])
  with Update_TargetBranches_items [OF assms, of m]
  show "\<exists>m1 cmds. Update ext (TargetBranches branches) m = Inr (m1, cmds) \<and>
         items (branchesList m1) ! 0 = \<lparr>name = Name d\<rparr> \<and>
         items (branchesList m1) = \<lparr>name = Name d\<rparr> # map (\<lambda>b. \<lparr>name = Name b\<rparr>) (pre @ post)"
    by auto
next
  assume h: "\<forall>b\<in>set branches. \<not> Default b"
  have "targetItems branches 0 [] = map (\<lambda>b. \<lparr>name = Name b\<rparr>) branches"
    unfolding targetItems_all by (simp add: filter_none [OF h] filter_all [OF h])
  with Update_TargetBranches_items [OF assms, of m]
  show "\<exists>m1 cmds. Update ext (TargetBranches branches) m = Inr (m1, cmds) \<and>
         items (branchesList m1) = map (\<lambda>b. \<lparr>name = Name b\<rparr>) branches"
    by auto
qed

theorem targetBranches_default_first_witness:
  "(\<exists>m1 cmds. Update idleWidgets (TargetBranches [featureX, developBranch, mainBranch, featureY])
                 pickingReady = Inr (m1, cmds) \<and>
      items (branchesList m1) =
        [\<lparr>name = ''main''\<rparr>, \<lparr>name = ''feature/x''\<rparr>, \<lparr>name = ''develop''\<rparr>, \<lparr>name = ''feature/y''\<rparr>])
   \<and> (\<exists>m1 cmds. Update idleWidgets (TargetBranches [featureX, developBranch, featureY])
                 pickingReady = Inr (m1, cmds) \<and>
      items (branchesList m1) =
        [\<lparr>name = ''feature/x''\<rparr>, \<lparr>name = ''develop''\<rparr>, \<lparr>name = ''feature/y''\<rparr>])"
proof -
  have w: "\<And>bs l. items (fst (listUpdate idleWidgets (TargetBranches bs) l)) = items l"
    by (simp add: idleWidgets_def)
  show ?thesis
    using targetBranches_default_first
      [of idleWidgets "[featureX, developBranch, mainBranch, featureY]"
          "[featureX, developBranch]" mainBranch "[featureY]" pickingReady, OF w]
      targetBranches_default_first
      [of idleWidgets "[featureX, developBranch, featureY]" "[]" mainBranch "[]" pickingReady, OF w]
    by (auto simp add: featureX_def featureY_def mainBranch_def developBranch_def)
qed

subsection \<open>User branches and key bindings\<close>

lemma Update_UserBranches:
  "Update ext (UserBranches branches) m =
     (let m1 = m\<lparr>flexTable := PageFirst (WithRows (userBranchRows ext branches 0 []) (flexTable m))\<rparr>
      in if \<not> showMergeTargets m
         then Inr (m1\<lparr>flexTable := fst (tableUpdate ext (UserBranches branches) (flexTable m1))\<rparr>,
                   Batch [snd (tableUpdate ext (UserBranches branches) (flexTable m1))])
         else Inr (m1\<lparr>branchesList := fst (listUpdate ext (UserBranches branches) (branchesList m1))\<rparr>,
                   Batch [snd (listUpdate ext (UserBranches branches) (branchesList m1))]))"
  by (simp add: Update_def Let_def split: prod.splits)

lemma Update_UserBranches_rows:
  assumes "\<And>t. rows (fst (tableUpdate ext (UserBranches branches) t)) = rows t
               \<and> currentPage (fst (tableUpdate ext (UserBranches branches) t)) = currentPage t"
  shows "\<exists>m1 cmds. Update ext (UserBranches branches) m = Inr (m1, cmds) \<and>
           rows (flexTable m1) = map (branchRow ext) branches \<and>
           currentPage (flexTable m1) = 0"
  using assms
  by (simp add: Update_UserBranches Let_def PageFirst_def WithRows_def userBranchRows_eq)

lemma Update_UserBranches_returns:
  "\<exists>m1 cmds. Update ext (UserBranches branches) m = Inr (m1, cmds)"
  by (simp add: Update_UserBranches Let_def)

lemma branchRow_metadata:
  "Data (branchRow ext b) columnKeyBranchMetadata = Some (CellBranch b)"
  by (simp add: branchRow_def NewRow_def)

text \<open>
  C7. After a \<open>UserBranches\<close> message with \<open>L\<close> and then one with \<open>L2\<close>, the
  table has exactly \<open>length L2\<close> rows, the row at each index built from the branch of
  \<open>L2\<close> at that index, and shows its first page. The table's own \<open>Update\<close>, which
  receives the message when the table is visible, is taken to leave rows and page as
  they are on such a message.
\<close>

theorem userBranches_replace_rows:
  assumes "\<And>t. rows (fst (tableUpdate ext (UserBranches L2) t)) = rows t
               \<and> currentPage (fst (tableUpdate ext (UserBranches L2) t)) = currentPage t"
  shows "\<exists>ma ca mb cb.
           Update ext (UserBranches L) m = Inr (ma, ca) \<and>
           Update ext (UserBranches L2) ma = Inr (mb, cb) \<and>
           length (rows (flexTable mb)) = length L2 \<and>
           rows (flexTable mb) = map (branchRow ext) L2 \<and>
           map (\<lambda>r. Data r columnKeyBranchMetadata) (rows (flexTable mb)) =
             map (\<lambda>b. Some (CellBranch b)) L2 \<and>
           currentPage (flexTable mb) = 0"
proof -
  obtain ma ca where a: "Update ext (UserBranches L) m = Inr (ma, ca)"
    using Update_UserBranches_returns by blast
  obtain mb cb where b: "Update ext (UserBranches L2) ma = Inr (mb, cb)"
    and r: "rows (flexTable mb) = map (branchRow ext) L2"
    and p: "currentPage (flexTable mb) = 0"
    using Update_UserBranches_rows [OF assms] by blast
  have "map (\<lambda>r. Data r columnKeyBranchMetadata) (rows (flexTable mb)) =
          map (\<lambda>b. Some (CellBranch b)) L2"
    unfolding r by (simp add: branchRow_metadata)
  with a b r p show ?thesis by simp
qed

theorem userBranches_replace_rows_witness:
  "\<exists>ma ca mb cb.
     Update idleWidgets (UserBranches [featureX, featureY, developBranch]) startTab = Inr (ma, ca) \<and>
     Update idleWidgets (UserBranches [featureY, featureX]) ma = Inr (mb, cb) \<and>
     length (rows (flexTable mb)) = 2 \<and>
     map (\<lambda>r. Data r columnKeyBranchMetadata) (rows (flexTable mb)) =
       [Some (CellBranch featureY), Some (CellBranch featureX)] \<and>
     currentPage (flexTable mb) = 0"
proof -
  have w: "\<And>bs t. rows (fst (tableUpdate idleWidgets (UserBranches bs) t)) = rows t
               \<and> currentPage (fst (tableUpdate idleWidgets (UserBranches bs) t)) = currentPage t"
    by (simp add: idleWidgets_def)
  show ?thesis
    using userBranches_replace_rows
      [of idleWidgets "[featureY, featureX]" "[featureX, featureY, developBranch]" startTab, OF w]
    by auto
qed

text \<open>
  C9. After \<open>changeBranchSelectionVisibility\<close> the mode flag is the argument, the
  bindings "merge automatically" and every "merge to favourite" are enabled exactly
  when the flag is off (browsing), and "close picker" and "confirm target" exactly when
  it is on (picking a target).
\<close>

theorem changeBranchSelectionVisibility_bindings:
  "(let m1 = changeBranchSelectionVisibility ext visible m in
     showMergeTargets m1 = visible
     \<and> enabled (MergeAutomatically (keys m1)) = (\<not> showMergeTargets m1)
     \<and> (\<forall>b \<in> set (MergeFavourite (keys m1)). enabled b = (\<not> showMergeTargets m1))
     \<and> enabled (CloseTargetBranchesList (keys m1)) = showMergeTargets m1
     \<and> enabled (SelectTargetBranch (keys m1)) = showMergeTargets m1
     \<and> length (MergeFavourite (keys m1)) = length (MergeFavourite (keys m)))"
  by (simp add: changeBranchSelectionVisibility_def recalculateComponents_def Let_def
        setEnabledFrom_eq SetEnabled_def)

theorem changeBranchSelectionVisibility_bindings_witness:
  "\<lparr>bindingKeys = [''2''], enabled = False\<rparr>
      \<in> set (MergeFavourite (keys (changeBranchSelectionVisibility idleWidgets True startTab)))
   \<and> showMergeTargets (changeBranchSelectionVisibility idleWidgets True startTab)
   \<and> \<not> enabled (MergeAutomatically (keys (changeBranchSelectionVisibility idleWidgets True startTab)))
   \<and> enabled (SelectTargetBranch (keys (changeBranchSelectionVisibility idleWidgets True startTab)))"
proof -
  have mem: "\<lparr>bindingKeys = [''2''], enabled = False\<rparr>
      \<in> set (MergeFavourite (keys (changeBranchSelectionVisibility idleWidgets True startTab)))"
    by (simp add: changeBranchSelectionVisibility_def recalculateComponents_def Let_def
          setEnabledFrom_eq SetEnabled_def startTab_def NewBranchTable_def exampleKeys_def)
  show ?thesis
    using mem changeBranchSelectionVisibility_bindings [of idleWidgets True startTab]
    by (simp add: Let_def)
qed

subsection \<open>Running the creation command\<close>

lemma Update_failed:
  "Update ext (failed text) m =
     (if \<not> showMergeTargets m
      then Inr (m\<lparr>flexTable := fst (tableUpdate ext (failed text) (flexTable m))\<rparr>,
                Batch [snd (tableUpdate ext (failed text) (flexTable m))])
      else Inr (m\<lparr>branchesList := fst (listUpdate ext (failed text) (branchesList m))\<rparr>,
                Batch [snd (listUpdate ext (failed text) (branchesList m))]))"
  by (simp add: Update_def failed_def split: prod.splits)

text \<open>
  C8. When the creation call returns an error that is "already exists", the command
  returns the failure event whose message is \<open>merge request from branch\<close>, the name
  of the source branch, \<open>already exists\<close>. Another error that is a network error
  gives the message advising to check the network connection; any other error is
  written to the log and gives the generic message pointing at the log file. The
  failure event, handed to \<open>Update\<close>, leaves the mode, the key bindings and the
  context as they were.
\<close>

theorem createMergeRequest_failures:
  "(CreateMergeRequest client sourceBranch targetBranch (shortenTitle title) = (mr, Some e) \<longrightarrow>
      (isMergeRequestAlreadyExists e \<longrightarrow>
         createMergeRequest client note sourceBranch targetBranch title =
           Inr (Some (failed (''merge request from branch '' @ sourceBranch @ '' already exists'')), []))
    \<and> (\<not> isMergeRequestAlreadyExists e \<and> asNetError e \<longrightarrow>
         createMergeRequest client note sourceBranch targetBranch title =
           Inr (Some (failed ''merge request creation failed, please check your network connection''), []))
    \<and> (\<not> isMergeRequestAlreadyExists e \<and> \<not> asNetError e \<longrightarrow>
         createMergeRequest client note sourceBranch targetBranch title =
           Inr (Some (failed ''unrecognized error when creating merge request, please check log file''),
                [''Error when creating merge request '' @ errorText e])))
   \<and> (\<exists>m1 cmds. Update ext (failed text) m = Inr (m1, cmds)
         \<and> showMergeTargets m1 = showMergeTargets m \<and> keys m1 = keys m
         \<and> context' m1 = context' m)"
  by (simp add: createMergeRequest_def Update_failed)

theorem createMergeRequest_failures_witness:
  "createMergeRequest (clientFailing alreadyExistsError) ''auto'' ''feature/x'' ''main'' ''fix bug''
     = Inr (Some (failed ''merge request from branch feature/x already exists''), [])
   \<and> createMergeRequest (clientFailing networkError) ''auto'' ''feature/x'' ''main'' ''fix bug''
     = Inr (Some (failed ''merge request creation failed, please check your network connection''), [])
   \<and> createMergeRequest (clientFailing otherError) ''auto'' ''feature/x'' ''main'' ''fix bug''
     = Inr (Some (failed ''unrecognized error when creating merge request, please check log file''),
            [''Error when creating merge request 403 Forbidden''])"
proof -
  have c: "\<And>e. CreateMergeRequest (clientFailing e) ''feature/x'' ''main'' (shortenTitle ''fix bug'')
             = (None, Some e)"
    by (simp add: clientFailing_def)
  show ?thesis
    using createMergeRequest_failures
            [of "clientFailing alreadyExistsError" "''feature/x''" "''main''" "''fix bug''"
                None alreadyExistsError "''auto''" idleWidgets "[]" startTab]
          createMergeRequest_failures
            [of "clientFailing networkError" "''feature/x''" "''main''" "''fix bug''"
                None networkError "''auto''" idleWidgets "[]" startTab]
          createMergeRequest_failures
            [of "clientFailing otherError" "''feature/x''" "''main''" "''fix bug''"
                None otherError "''auto''" idleWidgets "[]" startTab]
    by (simp add: c alreadyExistsError_def networkError_def otherError_def)
qed

text \<open>
  C1, as stated, fails: with a creation that succeeds and a note that fails, the command
  returns \<open>nil\<close>, not the "merge request created" event (lines 108-112).
\<close>

theorem note_failure_counterexample:
  "CreateMergeRequest clientNoteFails ''feature/x'' ''main'' (shortenTitle ''fix bug'')
     = (Some \<lparr>Iid = 7\<rparr>, None)
   \<and> CreateMergeRequestNote clientNoteFails 7 ''auto'' = Some otherError
   \<and> createMergeRequest clientNoteFails ''auto'' ''feature/x'' ''main'' ''fix bug''
     = Inr (None, [''Error when marking merge request to be merged automatically 403 Forbidden''])
   \<and> createMergeRequest clientNoteFails ''auto'' ''feature/x'' ''main'' ''fix bug''
     \<noteq> Inr (Some (MergeRequestCreated \<lparr>Iid = 7\<rparr>), [])"
  by (simp add: createMergeRequest_def clientNoteFails_def otherError_def)

text \<open>
  C1, amended. When the creation succeeds and the note call fails, the command returns
  no message at all, neither "merge request created" nor a failure; the failure of the
  note is only written to the log.
\<close>

theorem note_failure_returns_nil:
  "CreateMergeRequest client sourceBranch targetBranch (shortenTitle title) = (Some mr, None)
   \<and> CreateMergeRequestNote client (Iid mr) note = Some e \<longrightarrow>
   createMergeRequest client note sourceBranch targetBranch title =
     Inr (None, [''Error when marking merge request to be merged automatically '' @ errorText e])"
  by (simp add: createMergeRequest_def)

theorem note_failure_returns_nil_witness:
  "CreateMergeRequest clientNoteFails ''feature/x'' ''main'' (shortenTitle ''fix bug'')
     = (Some \<lparr>Iid = 7\<rparr>, None)
   \<and> CreateMergeRequestNote clientNoteFails (Iid \<lparr>Iid = 7\<rparr>) ''auto'' = Some otherError
   \<and> createMergeRequest clientNoteFails ''auto'' ''feature/x'' ''main'' ''fix bug''
     = Inr (None, [''Error when marking merge request to be merged automatically '' @ errorText otherError])"
proof -
  have c: "CreateMergeRequest clientNoteFails ''feature/x'' ''main'' (shortenTitle ''fix bug'')
     = (Some \<lparr>Iid = 7\<rparr>, None)"
    by (simp add: clientNoteFails_def)
  have n: "CreateMergeRequestNote clientNoteFails (Iid \<lparr>Iid = 7\<rparr>) ''auto'' = Some otherError"
    by (simp add: clientNoteFails_def)
  show ?thesis
    using c n note_failure_returns_nil
      [of clientNoteFails "''feature/x''" "''main''" "''fix bug''" "\<lparr>Iid = 7\<rparr>" "''auto''" otherError]
    by simp
qed

lemma note_success_reports_created:
  "CreateMergeRequest client sourceBranch targetBranch (shortenTitle title) = (Some mr, None)
   \<Longrightarrow> CreateMergeRequestNote client (Iid mr) note = None
   \<Longrightarrow> createMergeRequest client note sourceBranch targetBranch title =
         Inr (Some (MergeRequestCreated mr), [])"
  by (simp add: createMergeRequest_def)

subsection \<open>Unfolding the examples\<close>

lemmas example_defs =
  startTab_def NewBranchTable_def createList_def exampleKeys_def exampleContext_def
  twoTargets_def tabWithTargets_def pickingNoSource_def browsingOne_def pickingNoTarget_def
  pickingEmpty_def browsingAgain_def browsingReady_def pickingReady_def idleWidgets_def featureX_def featureY_def
  mainBranch_def developBranch_def trunkBranch_def

lemmas widget_defs =
  SetEnabled_def Matches_def WithRows_def PageFirst_def WithTargetWidth_def WithPageSize_def
  HighlightedRow_def SetItems_def VisibleItems_def SelectedItem_def ResetFilter_def
  ResetSelected_def SetWidth_def SetHeight_def NewRow_def branchRow_def
  columnKeyBranchName_def columnKeyLastCommit_def columnKeyBranchMetadata_def

lemmas tab_defs =
  contentSize_def tableSize_def recalculateComponents_def changeBranchSelectionVisibility_def
  Update_KeyMsg_def Update_def

subsection \<open>Opening and closing the picker\<close>

lemma Update_KeyMsg_forward:
  "Update_KeyMsg ext k m = Inr (m1, cmds) \<Longrightarrow>
   Update ext (KeyMsg k) m =
     (if \<not> showMergeTargets m1
      then Inr (m1\<lparr>flexTable := fst (tableUpdate ext (KeyMsg k) (flexTable m1))\<rparr>,
                Batch (cmds @ [snd (tableUpdate ext (KeyMsg k) (flexTable m1))]))
      else Inr (m1\<lparr>branchesList := fst (listUpdate ext (KeyMsg k) (branchesList m1))\<rparr>,
                Batch (cmds @ [snd (listUpdate ext (KeyMsg k) (branchesList m1))])))"
  by (simp add: Update_def split: prod.splits)

lemma change_mode:
  "showMergeTargets (changeBranchSelectionVisibility ext visible m) = visible"
  by (simp add: changeBranchSelectionVisibility_def recalculateComponents_def Let_def)

lemma change_picker:
  "filterState (branchesList (changeBranchSelectionVisibility ext visible m)) = Unfiltered
   \<and> filterValue (branchesList (changeBranchSelectionVisibility ext visible m)) = []
   \<and> cursor (branchesList (changeBranchSelectionVisibility ext visible m)) = 0
   \<and> items (branchesList (changeBranchSelectionVisibility ext visible m)) = items (branchesList m)"
  by (simp add: changeBranchSelectionVisibility_def recalculateComponents_def Let_def
        ResetFilter_def ResetSelected_def SetWidth_def SetHeight_def)

lemma change_table:
  "targetWidth (flexTable (changeBranchSelectionVisibility ext visible m)) =
     (if visible then seventyPercent ext (contentSize m) else contentSize m)
   \<and> rows (flexTable (changeBranchSelectionVisibility ext visible m)) = rows (flexTable m)
   \<and> context' (changeBranchSelectionVisibility ext visible m) = context' m"
  by (simp add: changeBranchSelectionVisibility_def recalculateComponents_def Let_def
        tableSize_def contentSize_def WithTargetWidth_def WithPageSize_def)

lemma mergeFavourites_picking:
  "showMergeTargets m \<Longrightarrow> mergeFavourites m k i cmds = Inr cmds"
proof (induction m k i cmds rule: mergeFavourites.induct)
  case (1 m k i cmds)
  show ?case
  proof (cases "i < length (MergeFavourite (keys m))")
    case True
    have "mergeFavourites m k i cmds = mergeFavourites m k (Suc i) cmds"
      using True "1.prems" by (subst mergeFavourites.simps) simp
    also have "\<dots> = Inr cmds"
      using "1.IH" (2) [OF True _ "1.prems"] "1.prems" by simp
    finally show ?thesis .
  next
    case False
    then show ?thesis
      by (subst mergeFavourites.simps) simp
  qed
qed

text \<open>
  C6. While browsing, a press that matches "merge automatically" makes the switch open
  the picker with its filter and selection reset; \<open>Update\<close> then hands the key to the
  picker, now the visible widget. While the picker is open and is not filtering, a
  press that matches "close picker" makes the switch return to browsing with the table
  as wide as the content; \<open>Update\<close> then hands the key to the table. While the picker
  is open, a press of the "merge automatically" key (which wins over the other cases
  when its binding is enabled, and is taken here not to be a picker key otherwise)
  leaves mode, bindings and table as they are.
\<close>

theorem picker_opens_and_closes:
  "(\<not> showMergeTargets m \<and> Matches k (MergeAutomatically (keys m)) \<longrightarrow>
      (\<exists>m1 m2 cmds.
         Update_switch ext (KeyMsg k) m = Inr (m1, [])
         \<and> showMergeTargets m1
         \<and> filterState (branchesList m1) = Unfiltered
         \<and> filterValue (branchesList m1) = []
         \<and> cursor (branchesList m1) = 0
         \<and> Update ext (KeyMsg k) m = Inr (m2, cmds)
         \<and> showMergeTargets m2
         \<and> branchesList m2 = fst (listUpdate ext (KeyMsg k) (branchesList m1))))
   \<and> (showMergeTargets m \<and> filterState (branchesList m) \<noteq> Filtering
       \<and> Matches k (CloseTargetBranchesList (keys m))
       \<and> \<not> Matches k (MergeAutomatically (keys m)) \<longrightarrow>
      (\<exists>m1 m2 cmds.
         Update_switch ext (KeyMsg k) m = Inr (m1, [])
         \<and> \<not> showMergeTargets m1
         \<and> targetWidth (flexTable m1) = contentSize m1
         \<and> contentSize m1 = contentSize m
         \<and> Update ext (KeyMsg k) m = Inr (m2, cmds)
         \<and> \<not> showMergeTargets m2
         \<and> flexTable m2 = fst (tableUpdate ext (KeyMsg k) (flexTable m1))))
   \<and> (showMergeTargets m \<and> k \<in> set (bindingKeys (MergeAutomatically (keys m)))
       \<and> (Matches k (MergeAutomatically (keys m))
            \<or> (\<not> Matches k (CloseTargetBranchesList (keys m))
                \<and> \<not> Matches k (SelectTargetBranch (keys m)))) \<longrightarrow>
      (\<exists>m2 cmds.
         Update_switch ext (KeyMsg k) m = Inr (m, [])
         \<and> Update ext (KeyMsg k) m = Inr (m2, cmds)
         \<and> showMergeTargets m2
         \<and> keys m2 = keys m
         \<and> flexTable m2 = flexTable m))"
proof (intro conjI impI)
  assume h: "\<not> showMergeTargets m \<and> Matches k (MergeAutomatically (keys m))"
  let ?m1 = "changeBranchSelectionVisibility ext True m"
  from h have s: "Update_KeyMsg ext k m = Inr (?m1, [])"
    by (simp add: Update_KeyMsg_def)
  have f: "Update ext (KeyMsg k) m =
             Inr (?m1\<lparr>branchesList := fst (listUpdate ext (KeyMsg k) (branchesList ?m1))\<rparr>,
                  Batch ([] @ [snd (listUpdate ext (KeyMsg k) (branchesList ?m1))]))"
    using Update_KeyMsg_forward [OF s] by (simp add: change_mode)
  show "\<exists>m1 m2 cmds.
         Update_switch ext (KeyMsg k) m = Inr (m1, [])
         \<and> showMergeTargets m1
         \<and> filterState (branchesList m1) = Unfiltered
         \<and> filterValue (branchesList m1) = []
         \<and> cursor (branchesList m1) = 0
         \<and> Update ext (KeyMsg k) m = Inr (m2, cmds)
         \<and> showMergeTargets m2
         \<and> branchesList m2 = fst (listUpdate ext (KeyMsg k) (branchesList m1))"
    using s f by (simp add: change_mode change_picker)
next
  assume h: "showMergeTargets m \<and> filterState (branchesList m) \<noteq> Filtering
       \<and> Matches k (CloseTargetBranchesList (keys m))
       \<and> \<not> Matches k (MergeAutomatically (keys m))"
  let ?m1 = "changeBranchSelectionVisibility ext False m"
  from h have s: "Update_KeyMsg ext k m = Inr (?m1, [])"
    by (simp add: Update_KeyMsg_def)
  have f: "Update ext (KeyMsg k) m =
             Inr (?m1\<lparr>flexTable := fst (tableUpdate ext (KeyMsg k) (flexTable ?m1))\<rparr>,
                  Batch ([] @ [snd (tableUpdate ext (KeyMsg k) (flexTable ?m1))]))"
    using Update_KeyMsg_forward [OF s] by (simp add: change_mode)
  have c: "contentSize ?m1 = contentSize m"
    by (simp add: contentSize_def change_table)
  show "\<exists>m1 m2 cmds.
         Update_switch ext (KeyMsg k) m = Inr (m1, [])
         \<and> \<not> showMergeTargets m1
         \<and> targetWidth (flexTable m1) = contentSize m1
         \<and> contentSize m1 = contentSize m
         \<and> Update ext (KeyMsg k) m = Inr (m2, cmds)
         \<and> \<not> showMergeTargets m2
         \<and> flexTable m2 = fst (tableUpdate ext (KeyMsg k) (flexTable m1))"
    using s f c by (simp add: change_mode change_table)
next
  assume h: "showMergeTargets m \<and> k \<in> set (bindingKeys (MergeAutomatically (keys m)))
       \<and> (Matches k (MergeAutomatically (keys m))
            \<or> (\<not> Matches k (CloseTargetBranchesList (keys m))
                \<and> \<not> Matches k (SelectTargetBranch (keys m))))"
  then have s: "Update_KeyMsg ext k m = Inr (m, [])"
    by (auto simp add: Update_KeyMsg_def mergeFavourites_picking)
  show "\<exists>m2 cmds.
         Update_switch ext (KeyMsg k) m = Inr (m, [])
         \<and> Update ext (KeyMsg k) m = Inr (m2, cmds)
         \<and> showMergeTargets m2
         \<and> keys m2 = keys m
         \<and> flexTable m2 = flexTable m"
    using s h Update_KeyMsg_forward [OF s] by simp
qed


theorem picker_opens_and_closes_witness:
  "(\<not> showMergeTargets tabWithTargets \<and> Matches ''m'' (MergeAutomatically (keys tabWithTargets))
    \<and> (\<exists>m2 cmds. Update idleWidgets (KeyMsg ''m'') tabWithTargets = Inr (m2, cmds)
          \<and> showMergeTargets m2))
   \<and> (showMergeTargets pickingNoSource \<and> filterState (branchesList pickingNoSource) \<noteq> Filtering
    \<and> Matches ''esc'' (CloseTargetBranchesList (keys pickingNoSource))
    \<and> \<not> Matches ''esc'' (MergeAutomatically (keys pickingNoSource))
    \<and> (\<exists>m2 cmds. Update idleWidgets (KeyMsg ''esc'') pickingNoSource = Inr (m2, cmds)
          \<and> \<not> showMergeTargets m2 \<and> targetWidth (flexTable m2) = 96))
   \<and> (''m'' \<in> set (bindingKeys (MergeAutomatically (keys pickingNoSource)))
    \<and> \<not> Matches ''m'' (CloseTargetBranchesList (keys pickingNoSource))
    \<and> \<not> Matches ''m'' (SelectTargetBranch (keys pickingNoSource))
    \<and> (\<exists>m2 cmds. Update idleWidgets (KeyMsg ''m'') pickingNoSource = Inr (m2, cmds)
          \<and> showMergeTargets m2 \<and> keys m2 = keys pickingNoSource))"
proof -
  have a: "\<not> showMergeTargets tabWithTargets \<and> Matches ''m'' (MergeAutomatically (keys tabWithTargets))"
    by (simp add: example_defs widget_defs)
  have b: "showMergeTargets pickingNoSource \<and> filterState (branchesList pickingNoSource) \<noteq> Filtering
    \<and> Matches ''esc'' (CloseTargetBranchesList (keys pickingNoSource))
    \<and> \<not> Matches ''esc'' (MergeAutomatically (keys pickingNoSource))"
    by (simp add: example_defs widget_defs tab_defs Let_def)
  have c: "showMergeTargets pickingNoSource
    \<and> ''m'' \<in> set (bindingKeys (MergeAutomatically (keys pickingNoSource)))
    \<and> \<not> Matches ''m'' (CloseTargetBranchesList (keys pickingNoSource))
    \<and> \<not> Matches ''m'' (SelectTargetBranch (keys pickingNoSource))"
    by (simp add: example_defs widget_defs tab_defs Let_def)
  have w: "contentSize pickingNoSource = 96"
    by (simp add: example_defs widget_defs tab_defs Let_def)
  have i: "\<And>k t. fst (tableUpdate idleWidgets (KeyMsg k) t) = t"
    by (simp add: idleWidgets_def)
  show ?thesis
    using a b c
      picker_opens_and_closes [of tabWithTargets "''m''" idleWidgets]
      picker_opens_and_closes [of pickingNoSource "''esc''" idleWidgets]
      picker_opens_and_closes [of pickingNoSource "''m''" idleWidgets]
    by (auto simp add: w i)
qed

subsection \<open>Keys that create a merge request\<close>

lemma confirm_target_unguarded:
  assumes "showMergeTargets m" and "filterState (branchesList m) \<noteq> Filtering"
    and "Matches k (SelectTargetBranch (keys m))"
    and "\<not> Matches k (MergeAutomatically (keys m))"
    and "\<not> Matches k (CloseTargetBranchesList (keys m))"
    and "rows (flexTable m) = [] \<or> SelectedItem (branchesList m) = None"
  shows "\<exists>p. Update ext (KeyMsg k) m = Inl p"
proof -
  have "\<exists>p. Update_KeyMsg ext k m = Inl p"
    using assms
    by (auto simp add: Update_KeyMsg_def HighlightedRow_def split: sum.splits)
  then show ?thesis
    by (auto simp add: Update_def)
qed

lemma confirm_target_creates:
  assumes "showMergeTargets m" and "filterState (branchesList m) \<noteq> Filtering"
    and "Matches k (SelectTargetBranch (keys m))"
    and "\<not> Matches k (MergeAutomatically (keys m))"
    and "\<not> Matches k (CloseTargetBranchesList (keys m))"
    and "HighlightedRow (flexTable m) = Inr row"
    and "Data row columnKeyBranchMetadata = Some (CellBranch b)"
    and "SelectedItem (branchesList m) = Some target"
  shows "Update_switch ext (KeyMsg k) m =
           Inr (changeBranchSelectionVisibility ext False m,
                [Some (CreateMergeRequestCmd (Name b) (name target) (Message (Commit b)))])"
  using assms by (simp add: Update_KeyMsg_def)

lemma mergeFavourites_browsing:
  assumes "\<not> showMergeTargets m"
    and "HighlightedRow (flexTable m) = Inr row"
    and "Data row columnKeyBranchMetadata = Some (CellBranch b)"
    and "length (MergeFavourite (keys m)) \<le> length (FavouriteBranches (context' m))"
  shows "mergeFavourites m k i cmds =
           Inr (cmds @ map (\<lambda>j. Some (CreateMergeRequestCmd (Name b)
                                   (FavouriteBranches (context' m) ! j) (Message (Commit b))))
                         (filter (\<lambda>j. Matches k (MergeFavourite (keys m) ! j))
                            [i ..< length (MergeFavourite (keys m))]))"
  using assms
proof (induction m k i cmds rule: mergeFavourites.induct)
  case (1 m k i cmds)
  let ?n = "length (MergeFavourite (keys m))"
  show ?case
  proof (cases "i < ?n")
    case True
    then have u: "[i ..< ?n] = i # [Suc i ..< ?n]"
      by (simp add: upt_conv_Cons)
    from True "1.prems" have fi: "i < length (FavouriteBranches (context' m))"
      by simp
    show ?thesis
    proof (cases "Matches k (MergeFavourite (keys m) ! i)")
      case M: True
      let ?c = "Some (CreateMergeRequestCmd (Name b) (FavouriteBranches (context' m) ! i)
                        (Message (Commit b)))"
      have "mergeFavourites m k i cmds = mergeFavourites m k (Suc i) (cmds @ [?c])"
        using True M fi "1.prems" by (subst mergeFavourites.simps) simp
      also have "\<dots> = Inr ((cmds @ [?c]) @ map (\<lambda>j. Some (CreateMergeRequestCmd (Name b)
                                   (FavouriteBranches (context' m) ! j) (Message (Commit b))))
                         (filter (\<lambda>j. Matches k (MergeFavourite (keys m) ! j))
                            [Suc i ..< ?n]))"
        using "1.IH" (1) [OF True _ "1.prems" (2) _ fi "1.prems" (1,2,3,4)] M "1.prems"
        by simp
      finally show ?thesis
        using M by (simp add: u)
    next
      case M: False
      have "mergeFavourites m k i cmds = mergeFavourites m k (Suc i) cmds"
        using True M by (subst mergeFavourites.simps) simp
      also have "\<dots> = Inr (cmds @ map (\<lambda>j. Some (CreateMergeRequestCmd (Name b)
                                   (FavouriteBranches (context' m) ! j) (Message (Commit b))))
                         (filter (\<lambda>j. Matches k (MergeFavourite (keys m) ! j))
                            [Suc i ..< ?n]))"
        using "1.IH" (2) [OF True _ "1.prems"] M by simp
      finally show ?thesis
        using M by (simp add: u)
    qed
  next
    case False
    then show ?thesis
      by (subst mergeFavourites.simps) simp
  qed
qed

lemma favourite_unguarded:
  assumes "\<not> showMergeTargets m" and "rows (flexTable m) = []"
    and "i < length (MergeFavourite (keys m))"
    and "Matches k (MergeFavourite (keys m) ! i)"
  shows "\<exists>p. mergeFavourites m k j cmds = Inl p \<or> i < j"
  using assms
proof (induction m k j cmds rule: mergeFavourites.induct)
  case (1 m k j cmds)
  show ?case
  proof (cases "i < j")
    case True
    then show ?thesis by simp
  next
    case False
    with "1.prems" have jn: "j < length (MergeFavourite (keys m))" by simp
    show ?thesis
    proof (cases "Matches k (MergeFavourite (keys m) ! j)")
      case M: True
      have "mergeFavourites m k j cmds = Inl InterfaceConversion"
        using jn M "1.prems" by (subst mergeFavourites.simps) (simp add: HighlightedRow_def)
      then show ?thesis by simp
    next
      case M: False
      with False "1.prems" have "j \<noteq> i" by auto
      with False have ij: "\<not> i < Suc j" by simp
      have "mergeFavourites m k j cmds = mergeFavourites m k (Suc j) cmds"
        using jn M by (subst mergeFavourites.simps) simp
      moreover have "\<exists>p. mergeFavourites m k (Suc j) cmds = Inl p \<or> i < Suc j"
        using "1.IH" (2) [OF jn _ "1.prems"] M by simp
      ultimately show ?thesis using ij by simp
    qed
  qed
qed

lemma favourite_creates:
  assumes "\<not> showMergeTargets m"
    and "\<not> Matches k (MergeAutomatically (keys m))"
    and "\<not> Matches k (CloseTargetBranchesList (keys m))"
    and "\<not> Matches k (SelectTargetBranch (keys m))"
    and "HighlightedRow (flexTable m) = Inr row"
    and "Data row columnKeyBranchMetadata = Some (CellBranch b)"
    and "length (MergeFavourite (keys m)) \<le> length (FavouriteBranches (context' m))"
  shows "Update_switch ext (KeyMsg k) m =
           Inr (m, map (\<lambda>j. Some (CreateMergeRequestCmd (Name b)
                                   (FavouriteBranches (context' m) ! j) (Message (Commit b))))
                     (filter (\<lambda>j. Matches k (MergeFavourite (keys m) ! j))
                        [0 ..< length (MergeFavourite (keys m))]))"
  using assms(2-4) mergeFavourites_browsing [OF assms(1) assms(5-7), of k 0 "[]"]
  by (simp add: Update_KeyMsg_def)

lemma favourite_without_source_panics:
  assumes "\<not> showMergeTargets m" and "rows (flexTable m) = []"
    and "i < length (MergeFavourite (keys m))"
    and "Matches k (MergeFavourite (keys m) ! i)"
    and "\<not> Matches k (MergeAutomatically (keys m))"
    and "\<not> Matches k (CloseTargetBranchesList (keys m))"
    and "\<not> Matches k (SelectTargetBranch (keys m))"
  shows "\<exists>p. Update ext (KeyMsg k) m = Inl p"
proof -
  obtain p where "mergeFavourites m k 0 [] = Inl p"
    using favourite_unguarded [OF assms(1-4), of 0 "[]"] by auto
  then have "Update_KeyMsg ext k m = Inl p"
    using assms(5-7) by (simp add: Update_KeyMsg_def)
  then show ?thesis
    by (auto simp add: Update_def)
qed

text \<open>
  C2. The claim asks that confirming a target without a highlighted source branch or
  without a selected target item be ignored. The code has no such guard: from the tab
  as constructed, once the targets arrived and the picker is open on a table without
  rows, the "confirm target" key makes \<open>Update\<close> panic at the type assertion of line
  184; with one source row and no target item it panics at the one of line 185.
\<close>

theorem confirm_target_unguarded_trace:
  "Update idleWidgets (TargetBranches [mainBranch, developBranch]) startTab
     = Inr (tabWithTargets, [])
   \<and> Update idleWidgets (KeyMsg ''m'') tabWithTargets = Inr (pickingNoSource, [])
   \<and> rows (flexTable pickingNoSource) = []
   \<and> Update idleWidgets (KeyMsg ''enter'') pickingNoSource = Inl InterfaceConversion
   \<and> Update idleWidgets (UserBranches [featureX]) startTab = Inr (browsingOne, [])
   \<and> Update idleWidgets (KeyMsg ''m'') browsingOne = Inr (pickingNoTarget, [])
   \<and> SelectedItem (branchesList pickingNoTarget) = None
   \<and> Update idleWidgets (KeyMsg ''enter'') pickingNoTarget = Inl InterfaceConversion"
  by (simp add: example_defs widget_defs tab_defs Let_def setEnabledFrom_eq targetItems_eq
        userBranchRows_eq)

text \<open>
  C5. The claim asks that a "merge to favourite" key pressed without a highlighted
  source branch issue no request. The code has no such guard: on the tab as
  constructed, browsing a table without rows, the key of the first favourite makes
  \<open>Update\<close> panic at the type assertion of line 192; so it does after the picker was
  opened and closed, when the bindings are as \<open>changeBranchSelectionVisibility\<close> set
  them. (With a highlighted source branch the request is issued and the mode stays,
  see \<open>favourite_creates\<close>.)
\<close>

theorem favourite_unguarded_trace:
  "\<not> showMergeTargets startTab
   \<and> rows (flexTable startTab) = []
   \<and> Matches ''1'' (MergeFavourite (keys startTab) ! 0)
   \<and> Update idleWidgets (KeyMsg ''1'') startTab = Inl InterfaceConversion
   \<and> Update idleWidgets (KeyMsg ''m'') startTab = Inr (pickingEmpty, [])
   \<and> Update idleWidgets (KeyMsg ''esc'') pickingEmpty = Inr (browsingAgain, [])
   \<and> \<not> showMergeTargets browsingAgain
   \<and> Update idleWidgets (KeyMsg ''1'') browsingAgain = Inl InterfaceConversion"
  by (simp add: example_defs widget_defs tab_defs Let_def mergeFavourites.simps
        setEnabledFrom_eq)

end
